theory Spec2Isabelle
  imports
    Main
    "HOL-Library.AList"
    "HOL-Library.Char_ord"
    "HOL-Library.List_Lexorder"
    "HOL-Library.Sublist"
begin

section \<open>Python strings\<close>

text \<open>
  A Python \<open>str\<close> is modelled as a \<^typ>\<open>string\<close>, one \<^typ>\<open>char\<close> per code point
  (code points up to 255). Comparison of strings with \<open><\<close> and \<open>>\<close> is
  lexicographic on code points, a proper prefix being smaller, which is the order
  of \<^typ>\<open>char list\<close> here.
\<close>

abbreviation newline :: char where
  "newline \<equiv> CHR 0x0A"

abbreviation dquote :: char where
  "dquote \<equiv> CHR 0x22"

text \<open>\<open>\d\<close> of the \<open>re\<close> module: below 256 the decimal digits are \<open>0\<close> to \<open>9\<close>.\<close>

definition is_digit :: "char \<Rightarrow> bool" where
  "is_digit c = (c \<in> set ''0123456789'')"

definition digits :: "nat \<Rightarrow> string \<Rightarrow> bool" where
  "digits n s = (length s = n \<and> list_all is_digit s)"

text \<open>
  \<open>str.lower()\<close> on code points below 256: the letters \<open>A\<close> to \<open>Z\<close> and the
  capital letters of Latin-1 (\<open>0xC0\<close> to \<open>0xDE\<close>, the multiplication sign apart).
\<close>

definition lower_char :: "char \<Rightarrow> char" where
  "lower_char c =
     (let n = (of_char c :: nat)
      in if (65 \<le> n \<and> n \<le> 90) \<or> (192 \<le> n \<and> n \<le> 222 \<and> n \<noteq> 215)
         then char_of (n + 32) else c)"

definition lower :: "string \<Rightarrow> string" where
  "lower s = map lower_char s"

text \<open>
  \<open>s.split(sep)\<close> for a separator of one character: the pieces between the
  occurrences of the separator, never an empty list.
\<close>

fun split :: "char \<Rightarrow> string \<Rightarrow> string list" where
  "split sep [] = [[]]"
| "split sep (c # cs) =
     (if c = sep then [] # split sep cs
      else (case split sep cs of
              [] \<Rightarrow> [[c]]
            | p # ps \<Rightarrow> (c # p) # ps))"

text \<open>
  \<open>s.split(sep, 1)\<close>: cut at the first separator only.
\<close>

definition split1 :: "char \<Rightarrow> string \<Rightarrow> string list" where
  "split1 sep s =
     (if sep \<in> set s
      then [takeWhile (\<lambda>c. c \<noteq> sep) s, tl (dropWhile (\<lambda>c. c \<noteq> sep) s)]
      else [s])"

text \<open>\<open>sub in s\<close> for strings.\<close>

definition contains :: "string \<Rightarrow> string \<Rightarrow> bool" where
  "contains sub s = list_ex (prefix sub) (suffixes s)"

text \<open>\<open>sep.join(parts)\<close>.\<close>

fun join :: "string \<Rightarrow> string list \<Rightarrow> string" where
  "join sep [] = []"
| "join sep [p] = p"
| "join sep (p # q # ps) = p @ sep @ join sep (q # ps)"

text \<open>\<open>str.strip()\<close>: white space is removed at both ends.\<close>

definition is_space :: "char \<Rightarrow> bool" where
  "is_space c =
     (c \<in> {CHR 0x09, CHR 0x0A, CHR 0x0B, CHR 0x0C, CHR 0x0D,
            CHR 0x1C, CHR 0x1D, CHR 0x1E, CHR 0x1F, CHR 0x20, CHR 0x85, CHR 0xA0})"

definition strip :: "string \<Rightarrow> string" where
  "strip s = rev (dropWhile is_space (rev (dropWhile is_space s)))"

text \<open>
  \<open>str.splitlines()\<close>: the lines without their ends; \<open>\r\n\<close> is one line end,
  and a line end at the very end opens no further line.
\<close>

definition is_linebreak :: "char \<Rightarrow> bool" where
  "is_linebreak c =
     (c \<in> {CHR 0x0A, CHR 0x0B, CHR 0x0C, CHR 0x0D, CHR 0x1C, CHR 0x1D, CHR 0x1E, CHR 0x85})"

fun splitlines_from :: "string \<Rightarrow> string \<Rightarrow> string list" where
  "splitlines_from cur [] = (if cur = [] then [] else [cur])"
| "splitlines_from cur [c] = (if is_linebreak c then [cur] else [cur @ [c]])"
| "splitlines_from cur (c # d # cs) =
     (if c = CHR 0x0D \<and> d = CHR 0x0A then cur # splitlines_from [] cs
      else if is_linebreak c then cur # splitlines_from [] (d # cs)
      else splitlines_from (cur @ [c]) (d # cs))"

definition splitlines :: "string \<Rightarrow> string list" where
  "splitlines s = splitlines_from [] s"

text \<open>
  The text after the last \<open>/\<close>: \<open>file[file.rfind("/") + 1:]\<close>, where \<open>rfind\<close> is
  \<open>-1\<close> for a string without \<open>/\<close>, and \<open>os.path.basename\<close> on POSIX.
\<close>

definition basename :: "string \<Rightarrow> string" where
  "basename file = rev (takeWhile (\<lambda>c. c \<noteq> CHR ''/'') (rev file))"

text \<open>\<open>os.path.join(a, b)\<close> on POSIX.\<close>

definition path_join :: "string \<Rightarrow> string \<Rightarrow> string" where
  "path_join a b =
     (if prefix ''/'' b then b
      else if a = [] \<or> last a = CHR ''/'' then a @ b
      else a @ ''/'' @ b)"

section \<open>Deduplication of database backups\<close>

text \<open>
  \<open>MSSQLHandler.get_latest_bak_files\<close> matches every file name with
  \<^verbatim>\<open>re.match(r"(.*)_(\d{8}_\d{6})\.bak", file)\<close>.
  \<open>stamp_at s\<close> is the part of the pattern after the first group, matched at the
  start of \<open>s\<close>; it returns the second group.
\<close>

definition is_stamp :: "string \<Rightarrow> bool" where
  "is_stamp d = (digits 8 (take 8 d) \<and> take 1 (drop 8 d) = ''_'' \<and> digits 6 (drop 9 d))"

definition stamp_at :: "string \<Rightarrow> string option" where
  "stamp_at s =
     (let d = take 15 (drop 1 s)
      in if prefix ''_'' s \<and> is_stamp d \<and> prefix ''.bak'' (drop 16 s) then Some d else None)"

text \<open>
  The first group \<open>(.*)\<close> is greedy and \<open>.\<close> does not match a newline: the group
  first takes everything up to the first newline, and gives characters back one
  at a time until the rest of the pattern matches. \<open>re.match\<close> anchors the
  pattern at the start of the string only, so anything may follow \<open>.bak\<close>.
\<close>

fun match_greedy :: "string \<Rightarrow> nat \<Rightarrow> (string \<times> string) option" where
  "match_greedy s 0 =
     (case stamp_at s of Some d \<Rightarrow> Some ([], d) | None \<Rightarrow> None)"
| "match_greedy s (Suc i) =
     (case stamp_at (drop (Suc i) s) of
        Some d \<Rightarrow> Some (take (Suc i) s, d)
      | None \<Rightarrow> match_greedy s i)"

definition re_match_bak :: "string \<Rightarrow> (string \<times> string) option" where
  "re_match_bak file = match_greedy file (length (takeWhile (\<lambda>c. c \<noteq> newline) file))"

text \<open>
  \<open>file_dict\<close> is a Python dictionary, which keeps its keys in the order of
  their first insertion: an association list, updated in place.
\<close>

definition record_latest :: "string \<Rightarrow> (string \<times> string) list \<Rightarrow> (string \<times> string) list" where
  "record_latest file file_dict =
     (case re_match_bak file of
        None \<Rightarrow> file_dict
      | Some (some_string, date_str) \<Rightarrow>
          (case map_of file_dict some_string of
             None \<Rightarrow> AList.update some_string date_str file_dict
           | Some latest \<Rightarrow>
               if date_str > latest then AList.update some_string date_str file_dict
               else file_dict))"

definition get_latest_bak_files :: "string list \<Rightarrow> string list" where
  "get_latest_bak_files files =
     map (\<lambda>(key, date_str). key @ ''_'' @ date_str @ ''.bak'') (fold record_latest files [])"

text \<open>The file name \<open><name>_<digits8>_<digits6>.bak\<close> of a backup.\<close>

definition bak_file :: "string \<times> string \<Rightarrow> string" where
  "bak_file p = fst p @ ''_'' @ snd p @ ''.bak''"

definition bak_entry :: "string \<times> string \<Rightarrow> bool" where
  "bak_entry p = (newline \<notin> set (fst p) \<and> is_stamp (snd p))"

text \<open>
  The invariant of the loop of \<open>get_latest_bak_files\<close> once the entries \<open>ps\<close>
  are read: the dictionary \<open>d\<close> has one key for every name read, with the
  greatest of the stamps read for that name.
\<close>

definition latest_inv :: "(string \<times> string) list \<Rightarrow> (string \<times> string) list \<Rightarrow> bool" where
  "latest_inv ps d \<longleftrightarrow>
     distinct (map fst d) \<and>
     (\<forall>n. map_of d n = None \<longleftrightarrow> n \<notin> fst ` set ps) \<and>
     (\<forall>n s. map_of d n = Some s \<longrightarrow>
        (n, s) \<in> set ps \<and> (\<forall>s'. (n, s') \<in> set ps \<longrightarrow> s' \<le> s))"

section \<open>Containers and handlers\<close>

text \<open>
  What the tool reads of a running container through the engine's client:
  its name, the tags of its image, its port bindings (a dictionary from the
  container port to \<open>None\<close> or a list of host bindings, in the dictionary's
  order), its environment, its CPU quota, the decoded output of a command run
  inside it and the archive the engine returns for a path.
\<close>

record binding =
  HostIp :: string
  HostPort :: string

datatype tar_member = Member (member_name: string) (member_data: "string option")

datatype engine_error = NotFound | APIError

record container =
  name :: string
  tags :: "string list"
  ports :: "(string \<times> binding list option) list"
  Env :: "string list"
  NanoCpus :: "int option"
  exec_run :: "string \<Rightarrow> string"
  get_archive :: "string \<Rightarrow> engine_error + tar_member list"

text \<open>The exceptions of the program and of the Python runtime.\<close>

datatype error =
    HandlerNotFoundError string
  | AttributeError
  | IndexError
  | KeyError
  | TypeError
  | OSError

text \<open>Values handed to \<open>yaml.dump\<close>.\<close>

datatype yaml =
    YNone
  | YStr string
  | YSeq "yaml list"
  | YMap "(string \<times> yaml) list"

datatype handler_class = IgnitionHandler | MSSQLHandler | ModbusHandler

record handler =
  cls :: handler_class
  container :: container
  container_name :: string
  image_name :: string
  image_tag :: string
  dockerfile_content :: string
  environment_variables :: "string list"
  deploy :: yaml

text \<open>
  \<^verbatim>\<open>re.search(r"^[^-]+-([^-]+)-\d+$", container.name)\<close>: the name has exactly
  two hyphens, around a non-empty middle part, which is the group; the first part
  is not empty and the last is one digit or more. \<open>$\<close> also matches before a
  newline that ends the string. \<open>None\<close> when the name does not match.
\<close>

definition search_name :: "string \<Rightarrow> string option" where
  "search_name nm =
     (case split CHR ''-'' nm of
        [a, b, d] \<Rightarrow>
          (let ds = (if d \<noteq> [] \<and> last d = newline then butlast d else d)
           in if a \<noteq> [] \<and> b \<noteq> [] \<and> ds \<noteq> [] \<and> list_all is_digit ds then Some b else None)
      | _ \<Rightarrow> None)"

text \<open>
  \<open>ContainerHandler.__init__\<close>. \<open>.group(1)\<close> of a failed search is an
  \<open>AttributeError\<close>; \<open>tags[0]\<close> of an untagged image and \<open>split(":")[1]\<close> of a
  tag without a colon are an \<open>IndexError\<close>.
\<close>

definition ContainerHandler_init :: "handler_class \<Rightarrow> container \<Rightarrow> error + handler" where
  "ContainerHandler_init k c =
     (case search_name (name c) of
        None \<Rightarrow> Inl AttributeError
      | Some g \<Rightarrow>
          (case tags c of
             [] \<Rightarrow> Inl IndexError
           | t # _ \<Rightarrow>
               (case split CHR '':'' t of
                  n # tg # _ \<Rightarrow>
                    Inr \<lparr>cls = k, container = c, container_name = lower g,
                         image_name = n, image_tag = tg, dockerfile_content = [],
                         environment_variables = [], deploy = YNone\<rparr>
                | _ \<Rightarrow> Inl IndexError)))"

definition IgnitionHandler_init :: "container \<Rightarrow> error + handler" where
  "IgnitionHandler_init c =
     (case ContainerHandler_init IgnitionHandler c of
        Inl e \<Rightarrow> Inl e
      | Inr h \<Rightarrow> Inr (h\<lparr>environment_variables := [''ACCEPT_IGNITION_EULA=Y'']\<rparr>))"

text \<open>
  \<open>ModbusHandler.get_deploy\<close>. The limit is \<open>str(nano_cpus / 1e9)\<close>, a division
  of floating-point numbers and the decimal rendering of its result: the
  parameter \<open>float_str\<close> stands for \<open>\<lambda>n. str(n / 1e9)\<close>.
\<close>

definition get_deploy :: "(int \<Rightarrow> string) \<Rightarrow> container \<Rightarrow> yaml" where
  "get_deploy float_str c =
     (let nano_cpus = (case NanoCpus c of None \<Rightarrow> 0 | Some n \<Rightarrow> n);
          cpus = float_str nano_cpus
      in YMap [(''resources'', YMap [(''limits'', YMap [(''cpus'', YStr cpus)])])])"

definition ModbusHandler_init :: "(int \<Rightarrow> string) \<Rightarrow> container \<Rightarrow> error + handler" where
  "ModbusHandler_init float_str c =
     (case ContainerHandler_init ModbusHandler c of
        Inl e \<Rightarrow> Inl e
      | Inr h \<Rightarrow> Inr (h\<lparr>deploy := get_deploy float_str c\<rparr>))"

text \<open>
  \<open>MSSQLHandler.get_sa_password\<close>: the loop over \<open>Config.Env\<close>, appending to
  \<open>self.environment_variables\<close>, here \<open>env_vars\<close>.
\<close>

fun get_sa_password :: "string list \<Rightarrow> string list \<Rightarrow> error + string list" where
  "get_sa_password [] env_vars = Inr env_vars"
| "get_sa_password (item # env_list) env_vars =
     (if prefix ''SA_PASSWORD='' item
      then (case split1 CHR ''='' item of
              _ # password # _ \<Rightarrow>
                get_sa_password env_list (env_vars @ [''SA_PASSWORD='' @ password])
            | _ \<Rightarrow> Inl IndexError)
      else get_sa_password env_list env_vars)"

definition MSSQLHandler_init :: "container \<Rightarrow> error + handler" where
  "MSSQLHandler_init c =
     (case ContainerHandler_init MSSQLHandler c of
        Inl e \<Rightarrow> Inl e
      | Inr h \<Rightarrow>
          (case get_sa_password (Env c) [''ACCEPT_EULA=Y''] of
             Inl e \<Rightarrow> Inl e
           | Inr evs \<Rightarrow> Inr (h\<lparr>environment_variables := evs\<rparr>)))"

subsection \<open>The handler registry\<close>

definition handlers :: "string \<rightharpoonup> handler_class" where
  "handlers =
     map_of [(''inductiveautomation/ignition'', IgnitionHandler),
             (''kcollins/mssql'', MSSQLHandler),
             (''qpadgham/mymodbus'', ModbusHandler)]"

fun construct :: "(int \<Rightarrow> string) \<Rightarrow> handler_class \<Rightarrow> container \<Rightarrow> error + handler" where
  "construct float_str IgnitionHandler c = IgnitionHandler_init c"
| "construct float_str MSSQLHandler c = MSSQLHandler_init c"
| "construct float_str ModbusHandler c = ModbusHandler_init float_str c"

text \<open>\<open>HandlerFactory.get_handler\<close>.\<close>

definition get_handler :: "(int \<Rightarrow> string) \<Rightarrow> container \<Rightarrow> error + handler" where
  "get_handler float_str c =
     (case tags c of
        [] \<Rightarrow> Inl IndexError
      | t # _ \<Rightarrow>
          (let image_name = hd (split CHR '':'' t)
           in case handlers image_name of
                Some k \<Rightarrow> construct float_str k c
              | None \<Rightarrow> Inl (HandlerNotFoundError image_name)))"

text \<open>
  The base image name of a container, the key looked up in the registry:
  \<open>container.image.tags[0].split(":")[0]\<close>, when the image has a tag.
\<close>

definition base_image_name :: "container \<Rightarrow> string option" where
  "base_image_name c =
     (case tags c of [] \<Rightarrow> None | t # _ \<Rightarrow> Some (hd (split CHR '':'' t)))"

section \<open>Preparing and extracting files\<close>

text \<open>
  \<open>prepare_files\<close> of the three handler classes. A bare \<open>return\<close> gives Python's
  \<open>None\<close>, here \<^const>\<open>None\<close>; a list is \<open>Some\<close> of it. \<open>user_input\<close> is the line
  read by \<open>input()\<close> in \<open>MSSQLHandler.get_db_names\<close>.
\<close>

definition get_db_names :: "string \<Rightarrow> string list" where
  "get_db_names input_string = map strip (split CHR '','' input_string)"

text \<open>
  The loop of \<open>MSSQLHandler.prepare_files\<close> over the database names: \<open>False\<close>
  when it leaves the function at a backup without the marker.
\<close>

fun backup_databases :: "container \<Rightarrow> string list \<Rightarrow> bool" where
  "backup_databases c [] = True"
| "backup_databases c (db_name # db_names) =
     (let command = ''sh -c '' @ [dquote] @ ''./backup.sh '' @ db_name @ [dquote];
          result = exec_run c command
      in if \<not> contains ''BACKUP DATABASE'' result then False
         else backup_databases c db_names)"

definition prepare_files :: "string \<Rightarrow> handler \<Rightarrow> string list option" where
  "prepare_files user_input h =
     (case cls h of
        IgnitionHandler \<Rightarrow>
          (let command =
                 ''sh -c '' @ [dquote] @
                 ''/usr/local/bin/ignition/gwcmd.sh -y -b /usr/local/bin/ignition/data/backup.gwbk'' @
                 [dquote];
               result = exec_run (container h) command
           in if \<not> contains ''backup saved'' result then None
              else Some [''/usr/local/bin/ignition/data/redundancy.xml'',
                         ''/usr/local/bin/ignition/data/.uuid'',
                         ''/usr/local/bin/ignition/data/local/metro-keystore'',
                         ''/usr/local/bin/ignition/data/backup.gwbk''])
      | ModbusHandler \<Rightarrow> Some [''/setup.json'']
      | MSSQLHandler \<Rightarrow>
          (let db_names = get_db_names user_input
           in if \<not> backup_databases (container h) db_names then None
              else (let find_backups_cmd = ''sh -c '' @ [dquote] @ ''find /backups -type f'' @ [dquote];
                        result = exec_run (container h) find_backups_cmd;
                        all_baks = splitlines result
                    in Some (get_latest_bak_files all_baks))))"

text \<open>
  The local file system: the content of every path written. A file holds the
  archive fetched from the engine, or plain bytes. \<open>open(path, "wb")\<close> fails on
  the empty path and on a path that ends in \<open>/\<close>; folders are not modelled, so
  every other path can be written.
\<close>

datatype file_content = Archive "tar_member list" | Bytes string

type_synonym files = "string \<rightharpoonup> file_content"

definition write_file :: "string \<Rightarrow> file_content \<Rightarrow> files \<Rightarrow> error + files" where
  "write_file path content fs =
     (if path = [] \<or> last path = CHR ''/'' then Inl OSError
      else Inr (fs(path \<mapsto> content)))"

text \<open>
  \<open>archive.extractfile(name)\<close> of the \<open>tarfile\<close> module: the name, without
  trailing slashes, is looked up from the last member backwards (\<open>KeyError\<close>
  when no member has it); a member without data (a directory, a device) gives
  \<open>None\<close>.
\<close>

definition extractfile :: "tar_member list \<Rightarrow> string \<Rightarrow> error + string option" where
  "extractfile members nm =
     (case find (\<lambda>m. member_name m = rev (dropWhile (\<lambda>c. c = CHR ''/'') (rev nm))) (rev members) of
        None \<Rightarrow> Inl KeyError
      | Some m \<Rightarrow> Inr (member_data m))"

text \<open>
  \<open>DockerUtils.extract_inner_file\<close>. A file that is no archive makes
  \<open>tarfile.open\<close> raise (an \<open>OSError\<close> here); \<open>.read()\<close> on \<open>None\<close> is an
  \<open>AttributeError\<close>.
\<close>

definition extract_inner_file :: "string \<Rightarrow> string \<Rightarrow> files \<Rightarrow> error + files" where
  "extract_inner_file filepath extract_to fs =
     (case fs filepath of
        None \<Rightarrow> Inr fs
      | Some (Bytes _) \<Rightarrow> Inl OSError
      | Some (Archive members) \<Rightarrow>
          (let inner_archive_filename =
                 (case members of [] \<Rightarrow> None | member # _ \<Rightarrow> Some (member_name member))
           in case inner_archive_filename of
                None \<Rightarrow> Inr fs
              | Some nm \<Rightarrow>
                  if nm = [] then Inr fs
                  else (case extractfile members nm of
                          Inl e \<Rightarrow> Inl e
                        | Inr None \<Rightarrow> Inl AttributeError
                        | Inr (Some inner_archive_content) \<Rightarrow>
                            write_file (path_join extract_to nm) (Bytes inner_archive_content) fs)))"

text \<open>
  The loop of \<open>DockerUtils.extract_files_from_container\<close>; the engine's
  \<open>NotFound\<close> and \<open>APIError\<close> of \<open>get_archive\<close> are caught and the loop goes on.
\<close>

fun copy_files :: "container \<Rightarrow> string \<Rightarrow> string list \<Rightarrow> files \<Rightarrow> error + files" where
  "copy_files c destination [] fs = Inr fs"
| "copy_files c destination (file # rest) fs =
     (case get_archive c file of
        Inl _ \<Rightarrow> copy_files c destination rest fs
      | Inr data \<Rightarrow>
          (let file_name = lower (basename file);
               file_path = path_join destination file_name
           in case write_file file_path (Archive data) fs of
                Inl e \<Rightarrow> Inl e
              | Inr fs1 \<Rightarrow>
                  (case extract_inner_file file_path destination fs1 of
                     Inl e \<Rightarrow> Inl e
                   | Inr fs2 \<Rightarrow> copy_files c destination rest fs2)))"

text \<open>
  \<open>for file in files_to_copy\<close> raises \<open>TypeError\<close> when \<open>files_to_copy\<close> is
  \<open>None\<close>, outside the \<open>try\<close> of the loop body.
\<close>

definition extract_files_from_container ::
    "handler \<Rightarrow> string list option \<Rightarrow> string \<Rightarrow> files \<Rightarrow> error + files" where
  "extract_files_from_container h files_to_copy destination fs =
     (case files_to_copy of
        None \<Rightarrow> Inl TypeError
      | Some fl \<Rightarrow> copy_files (container h) destination fl fs)"

text \<open>\<open>ContainerHandler.extract_resources\<close>.\<close>

definition extract_resources :: "string \<Rightarrow> handler \<Rightarrow> string \<Rightarrow> files \<Rightarrow> error + files" where
  "extract_resources user_input h folder fs =
     (let files_to_copy = prepare_files user_input h
      in extract_files_from_container h files_to_copy folder fs)"

section \<open>The compose descriptor\<close>

text \<open>
  The loop over \<open>handler.container.ports\<close> in \<open>DockerUtils.create_compose_file\<close>.
  The keys of a dictionary are distinct, so \<open>ports[port]\<close> is the value listed
  with \<open>port\<close>; \<open>None\<close> and the empty list are false.
\<close>

fun port_mapping :: "(string \<times> binding list option) list \<Rightarrow> string list" where
  "port_mapping [] = []"
| "port_mapping ((port, None) # ps) = port_mapping ps"
| "port_mapping ((port, Some []) # ps) = port_mapping ps"
| "port_mapping ((port, Some (b # _)) # ps) = (HostPort b @ '':'' @ port) # port_mapping ps"

text \<open>
  A container port is published when its list of host bindings is neither
  \<open>None\<close> nor empty.
\<close>

fun published :: "string \<times> binding list option \<Rightarrow> bool" where
  "published (port, None) = False"
| "published (port, Some bs) = (bs \<noteq> [])"

definition service_entry :: "string \<Rightarrow> handler \<Rightarrow> yaml" where
  "service_entry img h =
     (let service_name = container_name h;
          service_image_name = ''qpadgham/'' @ img @ '':'' @ service_name
      in YMap [(''container_name'', YStr service_name),
               (''image'', YStr service_image_name),
               (''ports'', YSeq (map YStr (port_mapping (ports (container h))))),
               (''environment'', YSeq (map YStr (environment_variables h))),
               (''deploy'', deploy h)])"

text \<open>
  \<open>docker_compose["services"][service_name] = {...}\<close>: an assignment to a key
  of a dictionary replaces the value of a key that is there and adds a new key
  at the end.
\<close>

definition add_service :: "string \<Rightarrow> handler \<Rightarrow> (string \<times> yaml) list \<Rightarrow> (string \<times> yaml) list" where
  "add_service img h services = AList.update (container_name h) (service_entry img h) services"

text \<open>
  \<open>DockerUtils.create_compose_file\<close>: the dictionary \<open>docker_compose\<close> that is
  handed to \<open>yaml.dump\<close>, which writes every key of every mapping, a \<open>None\<close>
  value as \<open>null\<close>.
\<close>

definition create_compose_file :: "string \<Rightarrow> handler list \<Rightarrow> yaml" where
  "create_compose_file img hs = YMap [(''services'', YMap (fold (add_service img) hs []))]"

text \<open>Reading a mapping: the value of a key, and the entries under \<open>services\<close>.\<close>

fun lookup :: "yaml \<Rightarrow> string \<Rightarrow> yaml option" where
  "lookup (YMap m) k = map_of m k"
| "lookup _ k = None"

fun entries :: "yaml \<Rightarrow> (string \<times> yaml) list" where
  "entries (YMap m) = m"
| "entries _ = []"

definition services :: "yaml \<Rightarrow> (string \<times> yaml) list" where
  "services doc = (case lookup doc ''services'' of None \<Rightarrow> [] | Some m \<Rightarrow> entries m)"

section \<open>Rendering the Dockerfiles\<close>

text \<open>
  \<open>MSSQLHandler.create_dockerfile\<close> matches the base name of every file of the
  build folder with \<^verbatim>\<open>re.match(r"^(.*?)_\d{8}_\d{6}\.bak$", base_name)\<close>.
  \<open>stamp_end s\<close> is the pattern after the group, up to \<open>$\<close>, which matches at
  the end of the string and before a newline that ends it. The group \<open>(.*?)\<close>
  is lazy: it takes one more character, none of them a newline, until the rest
  matches.
\<close>

definition stamp_end :: "string \<Rightarrow> bool" where
  "stamp_end s =
     (case stamp_at s of
        None \<Rightarrow> False
      | Some _ \<Rightarrow> drop 20 s = [] \<or> drop 20 s = [newline])"

definition re_match_short :: "string \<Rightarrow> string option" where
  "re_match_short base_name =
     map_option (\<lambda>i. take i base_name)
       (find (\<lambda>i. stamp_end (drop i base_name))
          [0 ..< Suc (length (takeWhile (\<lambda>c. c \<noteq> newline) base_name))])"

fun shorten :: "string list \<Rightarrow> string list" where
  "shorten [] = []"
| "shorten (file # bak_files) =
     (let base_name = basename file
      in case re_match_short base_name of
           None \<Rightarrow> shorten bak_files
         | Some g \<Rightarrow> (g @ ''.bak'') # shorten bak_files)"

text \<open>
  The text of the Dockerfile of each handler class, as lines joined by
  newlines; \<open>bak_files\<close> is \<open>os.listdir(folder)\<close>, read by the database handler
  only.
\<close>

definition render_dockerfile :: "handler \<Rightarrow> string list \<Rightarrow> string" where
  "render_dockerfile h bak_files =
     (case cls h of
        IgnitionHandler \<Rightarrow>
          join [newline]
            [''FROM inductiveautomation/ignition:'' @ image_tag h,
             [],
             ''COPY /.uuid /usr/local/bin/ignition/data/'',
             ''COPY /metro-keystore /usr/local/bin/ignition/data/local/metro-keystore'',
             ''COPY /redundancy.xml /usr/local/bin/ignition/data/redundancy.xml'',
             ''COPY /backup.gwbk /restore.gwbk'',
             [],
             ''USER root'',
             ''RUN chown -R ignition /usr/local/bin/ignition/data/'',
             ''RUN chgrp -R ignition /usr/local/bin/ignition/data/'',
             [],
             ''RUN chown -R ignition /restore.gwbk'',
             ''RUN chgrp -R ignition /restore.gwbk'',
             ''USER ignition'',
             [],
             ''ENTRYPOINT ['' @ [dquote] @ ''docker-entrypoint.sh'' @ [dquote] @ '', '' @
               [dquote] @ ''-r'' @ [dquote] @ '', '' @ [dquote] @ ''/restore.gwbk'' @ [dquote] @ '']'',
             ''    '']
      | ModbusHandler \<Rightarrow>
          join [newline]
            [''FROM qpadgham/mymodbus:'' @ image_tag h,
             [],
             ''COPY /setup.json /setup.json'',
             ''    '']
      | MSSQLHandler \<Rightarrow>
          (let shortened_filenames = shorten bak_files
           in join [newline]
                [[],
                 ''FROM kcollins/mssql:'' @ image_tag h,
                 [],
                 join [newline]
                   (map (\<lambda>(file_path, shortened_filename).
                           ''COPY /'' @ file_path @ '' /docker-entrypoint-initdb.d/'' @
                           shortened_filename)
                      (zip bak_files shortened_filenames)),
                 ''USER root'',
                 join [newline]
                   (map (\<lambda>shortened_filename.
                           ''RUN chown mssql /docker-entrypoint-initdb.d/'' @ shortened_filename)
                      shortened_filenames),
                 ''USER mssql'',
                 []]))"

text \<open>
  \<open>create_dockerfile\<close> with \<open>save_dockerfile\<close>: the handler keeps the text,
  which is written to \<open>dockerfile\<close> in the folder.
\<close>

definition create_dockerfile ::
    "handler \<Rightarrow> string list \<Rightarrow> string \<Rightarrow> files \<Rightarrow> error + handler \<times> files" where
  "create_dockerfile h bak_files folder fs =
     (let h' = h\<lparr>dockerfile_content := render_dockerfile h bak_files\<rparr>
      in case write_file (path_join folder ''dockerfile'') (Bytes (dockerfile_content h')) fs of
           Inl e \<Rightarrow> Inl e
         | Inr fs' \<Rightarrow> Inr (h', fs'))"

section \<open>Example containers\<close>

text \<open>
  A container of a compose project is named \<open><project>-<service>-<number>\<close>.
  \<open>gateway_down\<close> is a gateway whose backup command reports an error.
\<close>

definition gateway_down :: container where
  "gateway_down =
     \<lparr>name = ''proj-gateway-1'', tags = [''inductiveautomation/ignition:8.1.17''],
      ports = [], Env = [], NanoCpus = None,
      exec_run = (\<lambda>_. ''Error: gateway is not running''),
      get_archive = (\<lambda>_. Inl NotFound)\<rparr>"

definition gateway_handler :: handler where
  "gateway_handler =
     \<lparr>cls = IgnitionHandler, container = gateway_down, container_name = ''gateway'',
      image_name = ''inductiveautomation/ignition'', image_tag = ''8.1.17'',
      dockerfile_content = [], environment_variables = [''ACCEPT_IGNITION_EULA=Y''],
      deploy = YNone\<rparr>"

text \<open>A container of an image that has no handler.\<close>

definition proxy :: container where
  "proxy =
     \<lparr>name = ''proj-proxy-1'', tags = [''nginx:1.25''],
      ports = [], Env = [], NanoCpus = None,
      exec_run = (\<lambda>_. []), get_archive = (\<lambda>_. Inl NotFound)\<rparr>"

text \<open>
  Two containers of one scaled service, \<open>proj-web-1\<close> and \<open>proj-web-2\<close>. The
  first publishes its port 8088 on the host ports 8088 and 9088.
\<close>

definition web_1 :: container where
  "web_1 =
     \<lparr>name = ''proj-web-1'', tags = [''inductiveautomation/ignition:8.1.17''],
      ports = [(''8088/tcp'', Some [\<lparr>HostIp = ''0.0.0.0'', HostPort = ''8088''\<rparr>,
                                   \<lparr>HostIp = ''0.0.0.0'', HostPort = ''9088''\<rparr>]),
               (''8043/tcp'', None)],
      Env = [], NanoCpus = None,
      exec_run = (\<lambda>_. ''backup saved''), get_archive = (\<lambda>_. Inl NotFound)\<rparr>"

definition web_2 :: container where
  "web_2 = web_1\<lparr>name := ''proj-web-2'', ports := []\<rparr>"

definition web_1_handler :: handler where
  "web_1_handler =
     \<lparr>cls = IgnitionHandler, container = web_1, container_name = ''web'',
      image_name = ''inductiveautomation/ignition'', image_tag = ''8.1.17'',
      dockerfile_content = [], environment_variables = [''ACCEPT_IGNITION_EULA=Y''],
      deploy = YNone\<rparr>"

definition web_2_handler :: handler where
  "web_2_handler = web_1_handler\<lparr>container := web_2\<rparr>"

text \<open>
  A database server with two administrator passwords in its environment and
  one backup, whose name has capital letters.
\<close>

definition sql :: container where
  "sql =
     \<lparr>name = ''proj-db-1'', tags = [''kcollins/mssql:latest''],
      ports = [], Env = [''PATH=/usr/bin'', ''SA_PASSWORD=s3cret=x'', ''SA_PASSWORD=other''],
      NanoCpus = None,
      exec_run = (\<lambda>_. ''BACKUP DATABASE successfully processed 338 pages''),
      get_archive =
        (\<lambda>path. if path = ''/backups/DB1_20230101_000000.bak''
                then Inr [Member ''DB1_20230101_000000.bak'' (Some ''pages'')]
                else Inl NotFound)\<rparr>"

text \<open>The same server when its backup script fails.\<close>

definition sql_down :: container where
  "sql_down = sql\<lparr>exec_run := (\<lambda>_. ''Msg 911: database DB1 does not exist'')\<rparr>"

definition sql_base :: handler where
  "sql_base =
     \<lparr>cls = MSSQLHandler, container = sql, container_name = ''db'',
      image_name = ''kcollins/mssql'', image_tag = ''latest'',
      dockerfile_content = [], environment_variables = [], deploy = YNone\<rparr>"

definition sql_handler :: handler where
  "sql_handler =
     sql_base\<lparr>environment_variables :=
       [''ACCEPT_EULA=Y'', ''SA_PASSWORD=s3cret=x'', ''SA_PASSWORD=other'']\<rparr>"

section \<open>Properties of the deduplication\<close>

lemma stamp_length: "is_stamp s \<Longrightarrow> length s = 15"
  by (auto simp: is_stamp_def digits_def)

lemma digit_not_newline: "is_digit c \<Longrightarrow> c \<noteq> newline"
  by (auto simp: is_digit_def)

lemma stamp_no_newline:
  assumes "is_stamp s"
  shows "newline \<notin> set s"
proof -
  have "take 8 s @ drop 8 s = s" by (rule append_take_drop_id)
  moreover have "take 1 (drop 8 s) @ drop 1 (drop 8 s) = drop 8 s" by (rule append_take_drop_id)
  ultimately have s: "s = take 8 s @ take 1 (drop 8 s) @ drop 9 s"
    by simp
  have "newline \<notin> set (take 8 s)" "newline \<notin> set (take 1 (drop 8 s))" "newline \<notin> set (drop 9 s)"
    using assms by (auto simp: is_stamp_def digits_def list_all_iff dest: digit_not_newline)
  then show ?thesis by (subst s) (simp del: One_nat_def)
qed

lemma stamp_at_bak: "is_stamp s \<Longrightarrow> stamp_at (''_'' @ s @ ''.bak'' @ r) = Some s"
  by (simp add: stamp_at_def stamp_length)

lemma stamp_at_short:
  assumes "length s < 20"
  shows "stamp_at s = None"
proof (rule ccontr)
  assume "stamp_at s \<noteq> None"
  then have "prefix ''.bak'' (drop 16 s)"
    by (auto simp: stamp_at_def Let_def split: if_splits)
  then have "length ''.bak'' \<le> length (drop 16 s)" by (rule prefix_length_le)
  with assms show False by simp
qed

text \<open>The greedy group ends at the last place where the rest of the pattern matches.\<close>

lemma match_greedy_last:
  "j \<le> k \<Longrightarrow> stamp_at (drop j s) = Some d \<Longrightarrow>
   (\<And>i. j < i \<Longrightarrow> i \<le> k \<Longrightarrow> stamp_at (drop i s) = None) \<Longrightarrow>
   match_greedy s k = Some (take j s, d)"
proof (induction k)
  case 0
  then show ?case by simp
next
  case (Suc k)
  show ?case
  proof (cases "j = Suc k")
    case True
    with Suc.prems show ?thesis by simp
  next
    case False
    with Suc.prems have "j \<le> k" by simp
    moreover have "stamp_at (drop (Suc k) s) = None" using Suc.prems False by simp
    ultimately show ?thesis using Suc by simp
  qed
qed

lemma re_match_bak_entry:
  assumes "bak_entry p"
  shows "re_match_bak (bak_file p) = Some p"
proof -
  obtain n d where p: "p = (n, d)" by (cases p)
  from assms p have nl: "newline \<notin> set n" and st: "is_stamp d"
    by (simp_all add: bak_entry_def)
  define f where "f = n @ ''_'' @ d @ ''.bak''"
  have "newline \<notin> set f" using nl stamp_no_newline [OF st] by (simp add: f_def)
  then have tw: "takeWhile (\<lambda>c. c \<noteq> newline) f = f"
    by (auto simp: takeWhile_eq_all_conv)
  have len: "length f = length n + 20" using stamp_length [OF st] by (simp add: f_def)
  have "match_greedy f (length f) = Some (take (length n) f, d)"
  proof (rule match_greedy_last)
    show "length n \<le> length f" using len by simp
    show "stamp_at (drop (length n) f) = Some d"
      using stamp_at_bak [OF st, of "[]"] by (simp add: f_def)
    fix i assume "length n < i" "i \<le> length f"
    then have "length (drop i f) < 20" using len by simp
    then show "stamp_at (drop i f) = None" by (rule stamp_at_short)
  qed
  moreover have "re_match_bak f = match_greedy f (length f)"
    unfolding re_match_bak_def tw ..
  moreover have "take (length n) f = n" by (simp add: f_def)
  moreover have "bak_file p = f" by (simp add: bak_file_def p f_def)
  ultimately show ?thesis by (simp add: p)
qed

lemma record_latest_entry:
  assumes "bak_entry (n, s)"
  shows "record_latest (bak_file (n, s)) d =
     (case map_of d n of
        None \<Rightarrow> AList.update n s d
      | Some latest \<Rightarrow> if s > latest then AList.update n s d else d)"
  by (simp add: record_latest_def re_match_bak_entry [OF assms])

lemma latest_inv_step:
  assumes inv: "latest_inv ps d" and e: "bak_entry (n, s)"
  shows "latest_inv (ps @ [(n, s)]) (record_latest (bak_file (n, s)) d)"
proof (cases "map_of d n")
  case None
  then have r: "record_latest (bak_file (n, s)) d = AList.update n s d"
    by (simp add: record_latest_entry [OF e])
  from None inv have "n \<notin> fst ` set ps" by (simp add: latest_inv_def)
  then have "\<And>s'. (n, s') \<notin> set ps" by force
  with inv show ?thesis
    unfolding r latest_inv_def
    by (auto simp: distinct_update update_conv' image_Un)
next
  case (Some old)
  with inv have old: "(n, old) \<in> set ps" "\<And>s'. (n, s') \<in> set ps \<Longrightarrow> s' \<le> old"
    by (auto simp: latest_inv_def)
  show ?thesis
  proof (cases "s > old")
    case True
    then have r: "record_latest (bak_file (n, s)) d = AList.update n s d"
      using Some by (simp add: record_latest_entry [OF e])
    have "\<And>s'. (n, s') \<in> set ps \<Longrightarrow> s' \<le> s" using old(2) True by fastforce
    with inv old(1) show ?thesis
      unfolding r latest_inv_def
      by (auto simp: distinct_update update_conv' image_Un rev_image_eqI)
  next
    case False
    then have r: "record_latest (bak_file (n, s)) d = d"
      using Some by (simp add: record_latest_entry [OF e])
    from False have le: "s \<le> old" by simp
    have names: "fst ` set (ps @ [(n, s)]) = fst ` set ps"
      using old(1) by force
    have "map_of d m = Some t \<Longrightarrow> (m, s') \<in> set (ps @ [(n, s)]) \<Longrightarrow> s' \<le> t" for m t s'
    proof (cases "(m, s') = (n, s)")
      case True
      assume "map_of d m = Some t"
      with True Some le show ?thesis by simp
    next
      case False
      assume "map_of d m = Some t" "(m, s') \<in> set (ps @ [(n, s)])"
      moreover have "\<And>t s'. map_of d m = Some t \<Longrightarrow> (m, s') \<in> set ps \<Longrightarrow> s' \<le> t"
        using inv unfolding latest_inv_def by blast
      ultimately show ?thesis using False by auto
    qed
    moreover have "map_of d m = Some t \<Longrightarrow> (m, t) \<in> set (ps @ [(n, s)])" for m t
      using inv unfolding latest_inv_def by auto
    moreover have "distinct (map fst d)" "\<forall>m. map_of d m = None \<longleftrightarrow> m \<notin> fst ` set ps"
      using inv unfolding latest_inv_def by blast+
    ultimately show ?thesis
      unfolding r latest_inv_def names by blast
  qed
qed

lemma latest_inv_fold:
  "list_all bak_entry ps \<Longrightarrow> latest_inv ps (fold record_latest (map bak_file ps) [])"
proof (induction ps rule: rev_induct)
  case Nil
  show ?case by (simp add: latest_inv_def)
next
  case (snoc p ps)
  then show ?case using latest_inv_step [of ps _ "fst p" "snd p"] by simp
qed

lemma get_latest_bak_files_dict:
  "get_latest_bak_files files = map bak_file (fold record_latest files [])"
  by (simp add: get_latest_bak_files_def bak_file_def case_prod_beta)

text \<open>
  Claim C3. For backup files named \<open><name>_<digits8>_<digits6>.bak\<close>, given as
  the list \<open>ps\<close> of their names and stamps, the deduplication returns the file
  names of a list \<open>qs\<close> of entries of \<open>ps\<close> that has exactly one entry for
  every name of \<open>ps\<close>, and the stamp of that entry is the greatest, in the order
  of strings, of the stamps that \<open>ps\<close> has for the name. Names are handled
  independently: every name of \<open>ps\<close> is a name of \<open>qs\<close>.
\<close>

theorem get_latest_bak_files_latest:
  assumes "list_all bak_entry ps"
  shows "\<exists>qs. get_latest_bak_files (map bak_file ps) = map bak_file qs \<and>
           distinct (map fst qs) \<and>
           fst ` set qs = fst ` set ps \<and>
           length qs = card (fst ` set ps) \<and>
           set qs \<subseteq> set ps \<and>
           (\<forall>p\<in>set ps. \<forall>q\<in>set qs. fst p = fst q \<longrightarrow> snd p \<le> snd q)"
proof -
  define qs where "qs = fold record_latest (map bak_file ps) []"
  have inv: "latest_inv ps qs"
    unfolding qs_def using assms by (rule latest_inv_fold)
  then have d: "distinct (map fst qs)"
    and names: "\<And>n. map_of qs n = None \<longleftrightarrow> n \<notin> fst ` set ps"
    and latest: "\<And>n s. map_of qs n = Some s \<Longrightarrow>
                   (n, s) \<in> set ps \<and> (\<forall>s'. (n, s') \<in> set ps \<longrightarrow> s' \<le> s)"
    unfolding latest_inv_def by blast+
  have keys: "fst ` set qs = fst ` set ps"
    using names by (auto simp: map_of_eq_None_iff)
  have "length qs = card (fst ` set qs)"
    using d by (metis distinct_card length_map set_map)
  then have len: "length qs = card (fst ` set ps)" by (simp add: keys)
  have sub: "set qs \<subseteq> set ps"
    using latest d by auto
  have mx: "snd p \<le> snd q" if "p \<in> set ps" "q \<in> set qs" "fst p = fst q" for p q
  proof -
    from that(2) d have "map_of qs (fst q) = Some (snd q)" by simp
    from latest [OF this] that(1,3) show ?thesis by (cases p) auto
  qed
  show ?thesis
    using d len keys sub mx get_latest_bak_files_dict [of "map bak_file ps"]
    unfolding qs_def [symmetric] by blast
qed

lemma spec_example:
  "get_latest_bak_files
     [''db1_20230101_000000.bak'', ''db2_20230101_000000.bak'', ''db1_20230615_120000.bak''] =
   [''db1_20230615_120000.bak'', ''db2_20230101_000000.bak'']"
  by code_simp

theorem get_latest_bak_files_latest_witness:
  "list_all bak_entry
     [(''db1'', ''20230101_000000''), (''db2'', ''20230101_000000''), (''db1'', ''20230615_120000'')] \<and>
   (\<exists>qs. [''db1_20230615_120000.bak'', ''db2_20230101_000000.bak''] = map bak_file qs \<and>
      distinct (map fst qs) \<and>
      fst ` set qs = {''db1'', ''db2''} \<and>
      length qs = card {''db1'', ''db2''} \<and>
      set qs \<subseteq> {(''db1'', ''20230101_000000''), (''db2'', ''20230101_000000''),
                  (''db1'', ''20230615_120000'')} \<and>
      (\<forall>p\<in>{(''db1'', ''20230101_000000''), (''db2'', ''20230101_000000''),
              (''db1'', ''20230615_120000'')}. \<forall>q\<in>set qs. fst p = fst q \<longrightarrow> snd p \<le> snd q))"
proof -
  have a: "list_all bak_entry
     [(''db1'', ''20230101_000000''), (''db2'', ''20230101_000000''), (''db1'', ''20230615_120000'')]"
    by (simp add: bak_entry_def is_stamp_def digits_def is_digit_def)
  from get_latest_bak_files_latest [OF a] a spec_example
  show ?thesis by (simp add: bak_file_def insert_commute)
qed

section \<open>Properties of the handler registry\<close>

lemmas init_defs =
  get_handler_def handlers_def IgnitionHandler_init_def MSSQLHandler_init_def
  ModbusHandler_init_def ContainerHandler_init_def search_name_def is_digit_def split1_def

lemma lower_gateway: "lower ''gateway'' = ''gateway''"
  by code_simp

lemma lower_web: "lower ''web'' = ''web''"
  by code_simp

lemma lower_db: "lower ''db'' = ''db''"
  by code_simp

text \<open>The example handlers are the ones the registry builds for the example containers.\<close>

lemma gateway_handler_resolved: "get_handler float_str gateway_down = Inr gateway_handler"
  by (simp add: init_defs gateway_down_def gateway_handler_def lower_gateway)

lemma web_1_handler_resolved: "get_handler float_str web_1 = Inr web_1_handler"
  by (simp add: init_defs web_1_def web_1_handler_def lower_web)

lemma web_2_handler_resolved: "get_handler float_str web_2 = Inr web_2_handler"
  by (simp add: init_defs web_1_def web_2_def web_1_handler_def web_2_handler_def lower_web)

lemma sql_handler_resolved: "get_handler float_str sql = Inr sql_handler"
  by (simp add: init_defs sql_def sql_handler_def sql_base_def lower_db)

lemma sql_down_handler_resolved:
  "get_handler float_str sql_down = Inr (sql_handler\<lparr>container := sql_down\<rparr>)"
  by (simp add: init_defs sql_down_def sql_def sql_handler_def sql_base_def lower_db)

lemma handlers_dom:
  "dom handlers = {''inductiveautomation/ignition'', ''kcollins/mssql'', ''qpadgham/mymodbus''}"
  by (auto simp: handlers_def split: if_splits)

text \<open>
  Claim C2. When the base image name of a container is not a key of the
  registry, resolving the container fails with \<open>HandlerNotFoundError\<close>, which
  carries that name, and with no other error.
\<close>

theorem get_handler_not_found:
  assumes "base_image_name c = Some n" and "n \<notin> dom handlers"
  shows "get_handler float_str c = Inl (HandlerNotFoundError n)"
  using assms
  by (auto simp: get_handler_def base_image_name_def Let_def split: list.splits option.splits)

theorem get_handler_not_found_witness:
  "base_image_name proxy = Some ''nginx'' \<and> ''nginx'' \<notin> dom handlers \<and>
   get_handler (\<lambda>n. ''0.0'') proxy = Inl (HandlerNotFoundError ''nginx'')"
proof -
  have a: "base_image_name proxy = Some ''nginx''"
    by (simp add: base_image_name_def proxy_def)
  have b: "''nginx'' \<notin> dom handlers"
    by (simp add: handlers_dom)
  from a b get_handler_not_found [OF a b] show ?thesis by simp
qed

section \<open>Properties of the database handler's environment\<close>

lemma split1_sa_password:
  assumes "prefix ''SA_PASSWORD='' item"
  shows "\<exists>password. split1 CHR ''='' item = [''SA_PASSWORD'', password] \<and>
           ''SA_PASSWORD='' @ password = item"
proof -
  from assms obtain r where "item = ''SA_PASSWORD='' @ r" by (auto simp: prefix_def)
  then show ?thesis by (simp add: split1_def)
qed

lemma get_sa_password_filter:
  "get_sa_password env_list env_vars =
     Inr (env_vars @ filter (prefix ''SA_PASSWORD='') env_list)"
proof (induction env_list arbitrary: env_vars)
  case Nil
  show ?case by simp
next
  case (Cons item env_list)
  show ?case
  proof (cases "prefix ''SA_PASSWORD='' item")
    case True
    from split1_sa_password [OF True] obtain password where
      "split1 CHR ''='' item = [''SA_PASSWORD'', password]" "''SA_PASSWORD='' @ password = item"
      by blast
    with True Cons.IH show ?thesis by simp
  next
    case False
    with Cons.IH show ?thesis by simp
  qed
qed

lemma sql_base_init: "ContainerHandler_init MSSQLHandler sql = Inr sql_base"
  by (simp add: init_defs sql_def sql_base_def lower_db)

text \<open>
  Claim C10. When the initialiser of the base class succeeds on a container
  (its name and the tag of its image can be read), the construction of the
  database handler succeeds, and its environment is \<open>ACCEPT_EULA=Y\<close> followed
  by the variables of the container that start with \<open>SA_PASSWORD=\<close>, one entry
  for each, in their order; with no such variable it is exactly
  \<open>["ACCEPT_EULA=Y"]\<close>.
\<close>

theorem MSSQLHandler_init_environment:
  assumes "ContainerHandler_init MSSQLHandler c = Inr b"
  shows "MSSQLHandler_init c =
           Inr (b\<lparr>environment_variables :=
                    ''ACCEPT_EULA=Y'' # filter (prefix ''SA_PASSWORD='') (Env c)\<rparr>) \<and>
         ((\<forall>item\<in>set (Env c). \<not> prefix ''SA_PASSWORD='' item) \<longrightarrow>
            MSSQLHandler_init c = Inr (b\<lparr>environment_variables := [''ACCEPT_EULA=Y'']\<rparr>))"
proof -
  have 1: "MSSQLHandler_init c =
           Inr (b\<lparr>environment_variables :=
                    ''ACCEPT_EULA=Y'' # filter (prefix ''SA_PASSWORD='') (Env c)\<rparr>)"
    using assms by (simp add: MSSQLHandler_init_def get_sa_password_filter)
  have "filter (prefix ''SA_PASSWORD='') (Env c) = []"
    if "\<forall>item\<in>set (Env c). \<not> prefix ''SA_PASSWORD='' item"
    using that by (simp add: filter_empty_conv)
  with 1 show ?thesis by simp
qed

theorem MSSQLHandler_init_environment_witness:
  "ContainerHandler_init MSSQLHandler sql = Inr sql_base \<and>
   MSSQLHandler_init sql = Inr sql_handler \<and>
   ContainerHandler_init MSSQLHandler (sql\<lparr>Env := [''PATH=/usr/bin'']\<rparr>) =
     Inr (sql_base\<lparr>container := sql\<lparr>Env := [''PATH=/usr/bin'']\<rparr>\<rparr>) \<and>
   Env (sql\<lparr>Env := [''PATH=/usr/bin'']\<rparr>) = [''PATH=/usr/bin''] \<and>
   \<not> prefix ''SA_PASSWORD='' ''PATH=/usr/bin'' \<and>
   MSSQLHandler_init (sql\<lparr>Env := [''PATH=/usr/bin'']\<rparr>) =
     Inr (sql_base\<lparr>container := sql\<lparr>Env := [''PATH=/usr/bin'']\<rparr>,
                   environment_variables := [''ACCEPT_EULA=Y'']\<rparr>)"
proof -
  have a: "ContainerHandler_init MSSQLHandler sql = Inr sql_base"
    by (rule sql_base_init)
  have b: "ContainerHandler_init MSSQLHandler (sql\<lparr>Env := [''PATH=/usr/bin'']\<rparr>) =
      Inr (sql_base\<lparr>container := sql\<lparr>Env := [''PATH=/usr/bin'']\<rparr>\<rparr>)"
    by (simp add: init_defs sql_def sql_base_def lower_db)
  have c: "\<forall>item\<in>set (Env (sql\<lparr>Env := [''PATH=/usr/bin'']\<rparr>)). \<not> prefix ''SA_PASSWORD='' item"
    by simp
  from MSSQLHandler_init_environment [OF a] have "MSSQLHandler_init sql = Inr sql_handler"
    by (simp add: sql_handler_def) (simp add: sql_def)
  moreover from MSSQLHandler_init_environment [OF b] c
  have "MSSQLHandler_init (sql\<lparr>Env := [''PATH=/usr/bin'']\<rparr>) =
     Inr (sql_base\<lparr>container := sql\<lparr>Env := [''PATH=/usr/bin'']\<rparr>,
                   environment_variables := [''ACCEPT_EULA=Y'']\<rparr>)"
    by simp
  moreover have "Env (sql\<lparr>Env := [''PATH=/usr/bin'']\<rparr>) = [''PATH=/usr/bin'']"
    "\<not> prefix ''SA_PASSWORD='' ''PATH=/usr/bin''"
    by simp_all
  ultimately show ?thesis using a b by blast
qed

section \<open>A backup that fails\<close>

text \<open>
  Claim C1. The claim is that a backup command whose output lacks the marker
  leaves the extraction with no files and without an exception. For the
  gateway whose backup command reports an error, and for the database server
  whose backup script fails, asked for the database \<open>DB1\<close>, \<open>prepare_files\<close>
  returns \<open>None\<close> and the extraction raises \<open>TypeError\<close>, whatever the folder
  and the files on disk.
\<close>

theorem extract_resources_backup_failed:
  "prepare_files user_input gateway_handler = None \<and>
   extract_resources user_input gateway_handler folder fs = Inl TypeError \<and>
   prepare_files ''DB1'' (sql_handler\<lparr>container := sql_down\<rparr>) = None \<and>
   extract_resources ''DB1'' (sql_handler\<lparr>container := sql_down\<rparr>) folder fs = Inl TypeError"
  by (simp add: prepare_files_def extract_resources_def extract_files_from_container_def
      gateway_handler_def gateway_down_def sql_handler_def sql_base_def sql_down_def sql_def
      get_db_names_def strip_def is_space_def contains_def)

section \<open>Properties of the compose descriptor\<close>

lemma services_compose:
  "services (create_compose_file img hs) = fold (add_service img) hs []"
  by (simp add: services_def create_compose_file_def)

lemma keys_add_service:
  "map fst (add_service img h svcs) =
     (if container_name h \<in> set (map fst svcs) then map fst svcs
      else map fst svcs @ [container_name h])"
  by (simp add: add_service_def update_keys)

lemma fold_add_service_keys:
  "set (map fst (fold (add_service img) hs [])) = container_name ` set hs \<and>
   distinct (map fst (fold (add_service img) hs []))"
proof (induction hs rule: rev_induct)
  case Nil
  show ?case by simp
next
  case (snoc h hs)
  then show ?case by (auto simp: keys_add_service)
qed


text \<open>Every entry of the descriptor is the entry of a handler of the list.\<close>

lemma fold_add_service_entry:
  "(k, e) \<in> set (fold (add_service img) hs []) \<Longrightarrow>
   \<exists>h\<in>set hs. container_name h = k \<and> e = service_entry img h"
proof (induction hs arbitrary: k e rule: rev_induct)
  case Nil
  then show ?case by simp
next
  case (snoc h hs)
  let ?d = "fold (add_service img) hs []"
  have dist: "distinct (map fst (add_service img h ?d))"
    using fold_add_service_keys [of img hs] by (simp add: add_service_def distinct_update)
  from snoc.prems have "(k, e) \<in> set (add_service img h ?d)" by simp
  with dist have m: "map_of (add_service img h ?d) k = Some e" by simp
  show ?case
  proof (cases "k = container_name h")
    case True
    with m have "e = service_entry img h" by (simp add: add_service_def update_conv')
    with True show ?thesis by auto
  next
    case False
    with m have "map_of ?d k = Some e" by (simp add: add_service_def update_conv')
    then have "(k, e) \<in> set ?d" by (rule map_of_SomeD)
    from snoc.IH [OF this] show ?thesis by auto
  qed
qed

lemma gateway_services:
  "services (create_compose_file ''app'' [gateway_handler]) =
     [(''gateway'', service_entry ''app'' gateway_handler)]"
  by (simp add: services_compose add_service_def gateway_handler_def)

lemma port_mapping_first:
  "port_mapping ps =
     map (\<lambda>(port, bs). HostPort (hd (the bs)) @ '':'' @ port) (filter published ps)"
  by (induction ps rule: port_mapping.induct) simp_all




text \<open>
  Claim C4, as stated: the entry of a handler without a resource-limit block
  has no \<open>deploy\<close> key. The gateway's handler has no such block, and its entry
  has the key \<open>deploy\<close>, with the value \<open>None\<close>.
\<close>

theorem service_entry_deploy_counterexample:
  "deploy gateway_handler = YNone \<and>
   services (create_compose_file ''app'' [gateway_handler]) =
     [(''gateway'', service_entry ''app'' gateway_handler)] \<and>
   lookup (service_entry ''app'' gateway_handler) ''deploy'' = Some YNone"
  by (simp add: services_compose add_service_def service_entry_def Let_def gateway_handler_def)

text \<open>
  Claim C4, amended. Every service entry of the descriptor is the entry
  written for a handler of the list, under its short name, and has the key
  \<open>deploy\<close>; its value is the handler's resource-limit block, which is \<open>None\<close>
  (written as \<open>null\<close>) for a handler that has no such block.
\<close>

theorem service_entry_deploy:
  assumes "(k, e) \<in> set (services (create_compose_file img hs))"
  shows "\<exists>h\<in>set hs. container_name h = k \<and> e = service_entry img h \<and>
           lookup e ''deploy'' = Some (deploy h) \<and>
           (deploy h = YNone \<longrightarrow> lookup e ''deploy'' = Some YNone)"
proof -
  from assms obtain h where "h \<in> set hs" "container_name h = k" "e = service_entry img h"
    using fold_add_service_entry [of k e img hs] by (auto simp: services_compose)
  moreover have "lookup (service_entry img h) ''deploy'' = Some (deploy h)"
    by (simp add: service_entry_def Let_def)
  ultimately show ?thesis by auto
qed

theorem service_entry_deploy_witness:
  "(''gateway'', service_entry ''app'' gateway_handler)
     \<in> set (services (create_compose_file ''app'' [gateway_handler])) \<and>
   deploy gateway_handler = YNone \<and>
   lookup (service_entry ''app'' gateway_handler) ''deploy'' = Some YNone"
proof -
  have a: "(''gateway'', service_entry ''app'' gateway_handler)
     \<in> set (services (create_compose_file ''app'' [gateway_handler]))"
    by (simp add: gateway_services)
  have b: "deploy gateway_handler = YNone" by (simp add: gateway_handler_def)
  from service_entry_deploy [OF a] a b show ?thesis by auto
qed

text \<open>
  Claim C5, as stated: the \<open>ports\<close> field has every published port mapping of
  the container. The container \<open>web_1\<close> publishes its port \<open>8088/tcp\<close> on the
  host ports 8088 and 9088; the field has the first mapping only.
\<close>

theorem service_entry_ports_counterexample:
  "ports (container web_1_handler) =
     [(''8088/tcp'', Some [\<lparr>HostIp = ''0.0.0.0'', HostPort = ''8088''\<rparr>,
                          \<lparr>HostIp = ''0.0.0.0'', HostPort = ''9088''\<rparr>]),
      (''8043/tcp'', None)] \<and>
   services (create_compose_file ''app'' [web_1_handler]) =
     [(''web'', service_entry ''app'' web_1_handler)] \<and>
   lookup (service_entry ''app'' web_1_handler) ''ports'' = Some (YSeq [YStr ''8088:8088/tcp''])"
  by (simp add: services_compose add_service_def service_entry_def Let_def
      web_1_handler_def web_1_def)

text \<open>
  Claim C5, amended. Every service entry of the descriptor is the entry
  written for a handler of the list, and its \<open>ports\<close> field has, for every
  published port of that handler's container, in the container's order, one
  string: the host port of the first binding of the port, a colon, and the
  container port.
\<close>

theorem service_entry_ports:
  assumes "(k, e) \<in> set (services (create_compose_file img hs))"
  shows "\<exists>h\<in>set hs. container_name h = k \<and> e = service_entry img h \<and>
           lookup e ''ports'' =
             Some (YSeq (map (\<lambda>(port, bs). YStr (HostPort (hd (the bs)) @ '':'' @ port))
                           (filter published (ports (container h)))))"
proof -
  from assms obtain h where h: "h \<in> set hs" "container_name h = k" "e = service_entry img h"
    using fold_add_service_entry [of k e img hs] by (auto simp: services_compose)
  have "lookup (service_entry img h) ''ports'' =
          Some (YSeq (map YStr (port_mapping (ports (container h)))))"
    by (simp add: service_entry_def Let_def)
  also have "map YStr (port_mapping (ports (container h))) =
      map (\<lambda>(port, bs). YStr (HostPort (hd (the bs)) @ '':'' @ port))
        (filter published (ports (container h)))"
    by (simp add: port_mapping_first case_prod_beta comp_def)
  finally show ?thesis using h by auto
qed

theorem service_entry_ports_witness:
  "(''web'', service_entry ''app'' web_1_handler)
     \<in> set (services (create_compose_file ''app'' [gateway_handler, web_1_handler])) \<and>
   lookup (service_entry ''app'' web_1_handler) ''ports'' = Some (YSeq [YStr ''8088:8088/tcp''])"
proof -
  have a: "(''web'', service_entry ''app'' web_1_handler)
     \<in> set (services (create_compose_file ''app'' [gateway_handler, web_1_handler]))"
    by (simp add: services_compose add_service_def gateway_handler_def web_1_handler_def)
  from service_entry_ports [OF a] obtain h where
    "h \<in> {gateway_handler, web_1_handler}" "container_name h = ''web''"
    "lookup (service_entry ''app'' web_1_handler) ''ports'' =
       Some (YSeq (map (\<lambda>(port, bs). YStr (HostPort (hd (the bs)) @ '':'' @ port))
                     (filter published (ports (container h)))))"
    by auto
  moreover from this(1,2) have "h = web_1_handler" by (auto simp: gateway_handler_def)
  ultimately show ?thesis using a by (simp add: web_1_handler_def web_1_def)
qed

section \<open>Properties of the extraction\<close>

lemma slash_code: "(of_char CHR ''/'' :: nat) = 47"
  by simp

text \<open>Lowering a character neither makes nor removes a slash.\<close>

lemma lower_char_slash: "lower_char c = CHR ''/'' \<longleftrightarrow> c = CHR ''/''"
proof -
  define n where "n = (of_char c :: nat)"
  show ?thesis
  proof (cases "(65 \<le> n \<and> n \<le> 90) \<or> (192 \<le> n \<and> n \<le> 222 \<and> n \<noteq> 215)")
    case True
    then have l: "lower_char c = char_of (n + 32)"
      unfolding lower_char_def Let_def n_def [symmetric] by simp
    from True have small: "n + 32 < 256" by linarith
    have "of_char (char_of (n + 32) :: char) = (n + 32) mod 256" by (rule of_char_of)
    with small have oc: "(of_char (lower_char c) :: nat) = n + 32" by (simp add: l)
    from True have "n + 32 \<noteq> 47" by linarith
    with oc have "lower_char c \<noteq> CHR ''/''" using slash_code by metis
    moreover from True have "n \<noteq> 47" by linarith
    then have "c \<noteq> CHR ''/''" using slash_code n_def by metis
    ultimately show ?thesis by simp
  next
    case False
    have "lower_char c =
        (if (65 \<le> n \<and> n \<le> 90) \<or> (192 \<le> n \<and> n \<le> 222 \<and> n \<noteq> 215)
         then char_of (n + 32) else c)"
      unfolding lower_char_def Let_def n_def ..
    with False have "lower_char c = c" by (simp only: if_False)
    then show ?thesis by simp
  qed
qed

lemma basename_no_slash: "CHR ''/'' \<notin> set (basename file)"
  by (auto simp: basename_def dest: set_takeWhileD)

lemma lower_basename_no_slash: "CHR ''/'' \<notin> set (lower (basename file))"
proof
  assume "CHR ''/'' \<in> set (lower (basename file))"
  then obtain c where "c \<in> set (basename file)" "lower_char c = CHR ''/''"
    by (auto simp: lower_def)
  then have "CHR ''/'' \<in> set (basename file)" by (simp add: lower_char_slash)
  then show False by (simp add: basename_no_slash)
qed

lemma path_join_plain:
  assumes "b \<noteq> []" and "CHR ''/'' \<notin> set b"
  shows "path_join a b \<noteq> [] \<and> last (path_join a b) \<noteq> CHR ''/''"
proof -
  from assms have "last b \<noteq> CHR ''/''" using last_in_set by metis
  moreover from assms have "\<not> prefix ''/'' b" by (auto simp: prefix_def)
  ultimately show ?thesis using assms(1) by (simp add: path_join_def)
qed

lemma lower_db1:
  "lower (basename ''/backups/DB1_20230101_000000.bak'') = ''db1_20230101_000000.bak''"
  by code_simp

text \<open>
  Claim C8. For a path \<open>file\<close> of the list returned by \<open>prepare_files\<close> that
  does not end in a slash and whose archive the engine returns, with a first
  member \<open>m\<close> that \<open>tarfile\<close> extracts as a file and whose name is a plain file
  name, the extraction writes the archive to the destination folder under the
  lowered base name of \<open>file\<close>, then the content of the member to the same
  folder under the member's own name, and goes on with the rest of the list.
  The two names may differ: they do for a base name with a capital letter.
\<close>

theorem extract_writes_archive_and_member:
  assumes fetch: "get_archive (container h) file = Inr (m # ms)"
    and outer: "basename file \<noteq> []"
    and inner: "member_name m \<noteq> []" "CHR ''/'' \<notin> set (member_name m)"
    and data: "extractfile (m # ms) (member_name m) = Inr (Some content)"
  shows "extract_files_from_container h (Some (file # rest)) destination fs =
         extract_files_from_container h (Some rest) destination
           (fs(path_join destination (lower (basename file)) \<mapsto> Archive (m # ms),
               path_join destination (member_name m) \<mapsto> Bytes content))"
proof -
  let ?outer = "path_join destination (lower (basename file))"
  let ?inner = "path_join destination (member_name m)"
  from outer have "lower (basename file) \<noteq> []" by (simp add: lower_def)
  then have "?outer \<noteq> [] \<and> last ?outer \<noteq> CHR ''/''"
    using lower_basename_no_slash by (rule path_join_plain)
  then have w1: "write_file ?outer (Archive (m # ms)) fs = Inr (fs(?outer \<mapsto> Archive (m # ms)))"
    by (simp add: write_file_def)
  have "?inner \<noteq> [] \<and> last ?inner \<noteq> CHR ''/''"
    using inner by (rule path_join_plain)
  then have w2: "write_file ?inner (Bytes content) (fs(?outer \<mapsto> Archive (m # ms))) =
      Inr (fs(?outer \<mapsto> Archive (m # ms), ?inner \<mapsto> Bytes content))"
    by (simp add: write_file_def)
  have e: "extract_inner_file ?outer destination (fs(?outer \<mapsto> Archive (m # ms))) =
      Inr (fs(?outer \<mapsto> Archive (m # ms), ?inner \<mapsto> Bytes content))"
    using inner(1) data w2 by (simp add: extract_inner_file_def)
  show ?thesis
    using fetch w1 e by (simp add: extract_files_from_container_def Let_def)
qed

theorem extract_writes_archive_and_member_witness:
  "get_archive (container sql_handler) ''/backups/DB1_20230101_000000.bak'' =
     Inr [Member ''DB1_20230101_000000.bak'' (Some ''pages'')] \<and>
   basename ''/backups/DB1_20230101_000000.bak'' \<noteq> [] \<and>
   extractfile [Member ''DB1_20230101_000000.bak'' (Some ''pages'')] ''DB1_20230101_000000.bak'' =
     Inr (Some ''pages'') \<and>
   extract_files_from_container sql_handler (Some [''/backups/DB1_20230101_000000.bak''])
       ''db'' Map.empty =
     Inr [''db/db1_20230101_000000.bak'' \<mapsto>
            Archive [Member ''DB1_20230101_000000.bak'' (Some ''pages'')],
          ''db/DB1_20230101_000000.bak'' \<mapsto> Bytes ''pages''] \<and>
   ''db/db1_20230101_000000.bak'' \<noteq> ''db/DB1_20230101_000000.bak''"
proof -
  let ?file = "''/backups/DB1_20230101_000000.bak''"
  let ?m = "Member ''DB1_20230101_000000.bak'' (Some ''pages'')"
  have a: "get_archive (container sql_handler) ?file = Inr (?m # [])"
    by (simp add: sql_handler_def sql_base_def sql_def)
  have b: "basename ?file \<noteq> []" by (simp add: basename_def)
  have c: "member_name ?m \<noteq> []" "CHR ''/'' \<notin> set (member_name ?m)" by simp_all
  have d: "extractfile (?m # []) (member_name ?m) = Inr (Some ''pages'')"
    by (simp add: extractfile_def)
  from extract_writes_archive_and_member [OF a b c d, of "[]" "''db''" Map.empty] a b d
  show ?thesis
    by (simp add: lower_db1 path_join_def extract_files_from_container_def)
qed

section \<open>The Dockerfile of the database handler\<close>

text \<open>
  Claim C9. The claim is that every retained backup of the build folder is
  copied, that exact file, to \<open><name>.bak\<close> in the initialisation folder. In a
  folder that holds the \<open>dockerfile\<close> of an earlier run before the backup
  \<open>db1_20230101_000000.bak\<close>, the text rendered copies \<open>/dockerfile\<close> to
  \<open>db1.bak\<close> and has no instruction that copies the backup.
\<close>

theorem render_dockerfile_copies_other_file:
  "shorten [''dockerfile'', ''db1_20230101_000000.bak''] = [''db1.bak''] \<and>
   render_dockerfile sql_handler [''dockerfile'', ''db1_20230101_000000.bak''] =
     join [newline]
       [[],
        ''FROM kcollins/mssql:latest'',
        [],
        ''COPY /dockerfile /docker-entrypoint-initdb.d/db1.bak'',
        ''USER root'',
        ''RUN chown mssql /docker-entrypoint-initdb.d/db1.bak'',
        ''USER mssql'',
        []]"
  by code_simp

end
